theory Spec2Isabelle
  imports Complex_Main
begin

section \<open>Python values and failures\<close>

text \<open>
  The development embeds \<^verbatim>\<open>src/MDP/mdp.py\<close>.  Python numbers (the integer \<^verbatim>\<open>0\<close> and the
  floating point values of the tables) are modelled as exact reals; states and actions are
  opaque, so they are type parameters.  Every exception the code can raise is a value.
\<close>

datatype error = KeyError | ValueError | IndexError

definition bindE :: "error + 'x \<Rightarrow> ('x \<Rightarrow> error + 'y) \<Rightarrow> error + 'y" where
  "bindE r f = (case r of Inl e \<Rightarrow> Inl e | Inr v \<Rightarrow> f v)"

text \<open>\<^verbatim>\<open>d[k]\<close> on a dictionary: a missing key raises \<^verbatim>\<open>KeyError\<close>.\<close>

definition getitem :: "('k \<rightharpoonup> 'v) \<Rightarrow> 'k \<Rightarrow> error + 'v" where
  "getitem d k = (case d k of None \<Rightarrow> Inl KeyError | Some v \<Rightarrow> Inr v)"

text \<open>A generator or comprehension whose element expression may raise.\<close>

fun mapE :: "('x \<Rightarrow> error + 'y) \<Rightarrow> 'x list \<Rightarrow> error + 'y list" where
  "mapE f [] = Inr []"
| "mapE f (x # xs) = bindE (f x) (\<lambda>y. bindE (mapE f xs) (\<lambda>ys. Inr (y # ys)))"

text \<open>A \<^verbatim>\<open>for\<close> loop over a list that updates local state and may raise.\<close>

fun foldE :: "('x \<Rightarrow> 'c \<Rightarrow> error + 'c) \<Rightarrow> 'x list \<Rightarrow> 'c \<Rightarrow> error + 'c" where
  "foldE f [] c = Inr c"
| "foldE f (x # xs) c = bindE (f x c) (foldE f xs)"

text \<open>\<^verbatim>\<open>sum(...)\<close> starts from 0 and adds from the left.\<close>

definition py_sum :: "real list \<Rightarrow> real" where
  "py_sum xs = foldl (+) 0 xs"

text \<open>
  \<^verbatim>\<open>max(iterable)\<close> keeps the first item and replaces it only by a strictly greater one;
  on an empty iterable it raises \<^verbatim>\<open>ValueError\<close>.
\<close>

fun max_from :: "real \<Rightarrow> real list \<Rightarrow> real" where
  "max_from best [] = best"
| "max_from best (x # xs) = max_from (if best < x then x else best) xs"

definition py_max :: "real list \<Rightarrow> error + real" where
  "py_max xs = (case xs of [] \<Rightarrow> Inl ValueError | x # rest \<Rightarrow> Inr (max_from x rest))"

text \<open>\<^verbatim>\<open>max(iterable, key=f)\<close>: the same scan on the keys, returning the item.\<close>

fun argmax_from :: "'x \<times> real \<Rightarrow> ('x \<times> real) list \<Rightarrow> 'x" where
  "argmax_from (b, kb) [] = b"
| "argmax_from (b, kb) ((x, kx) # xs) = argmax_from (if kb < kx then (x, kx) else (b, kb)) xs"

definition py_max_pairs :: "('x \<times> real) list \<Rightarrow> error + 'x" where
  "py_max_pairs ps = (case ps of [] \<Rightarrow> Inl ValueError | p # rest \<Rightarrow> Inr (argmax_from p rest))"

definition py_max_key :: "('x \<Rightarrow> error + real) \<Rightarrow> 'x list \<Rightarrow> error + 'x" where
  "py_max_key f xs = bindE (mapE f xs) (\<lambda>ks. py_max_pairs (zip xs ks))"

section \<open>The model\<close>

record ('s, 'a) MDP =
  states :: "'s list"
  actions :: "'a list"
  P :: "'s \<rightharpoonup> ('a \<rightharpoonup> (real \<times> 's) list)"
  R :: "'s \<rightharpoonup> ('a \<rightharpoonup> real)"
  gamma :: real
  terminal_states :: "'s set"

text \<open>
  \<^verbatim>\<open>MDP.__init__\<close> stores its arguments; \<^verbatim>\<open>terminal_states or set()\<close> replaces an omitted
  (or empty) argument by the empty set.  The default \<^verbatim>\<open>gamma=0.9\<close> is the caller's to pass.
\<close>

definition MDP_init ::
  "'s list \<Rightarrow> 'a list \<Rightarrow> ('s \<rightharpoonup> ('a \<rightharpoonup> (real \<times> 's) list)) \<Rightarrow> ('s \<rightharpoonup> ('a \<rightharpoonup> real)) \<Rightarrow> real
     \<Rightarrow> 's set option \<Rightarrow> ('s, 'a) MDP" where
  "MDP_init sts acts transition_probabilities rewards g terminal =
     \<lparr> states = sts, actions = acts, P = transition_probabilities, R = rewards, gamma = g,
       terminal_states = (case terminal of None \<Rightarrow> {} | Some T \<Rightarrow> T) \<rparr>"

text \<open>
  The expression
  \<^verbatim>\<open>sum(prob * (self.R[s][a] + self.gamma * V[next_state]) for prob, next_state in self.P[s][a])\<close>
  that all three planners share.  \<^verbatim>\<open>self.P[s][a]\<close> is read once; the reward and the value
  of the successor are read for every listed transition.
\<close>

definition lookahead :: "('s, 'a) MDP \<Rightarrow> ('s \<rightharpoonup> real) \<Rightarrow> 's \<Rightarrow> 'a \<Rightarrow> error + real" where
  "lookahead m V s a =
     bindE (getitem (P m) s) (\<lambda>Ps. bindE (getitem Ps a) (\<lambda>transitions.
     bindE (mapE (\<lambda>(prob, next_state).
              bindE (getitem (R m) s) (\<lambda>Rs. bindE (getitem Rs a) (\<lambda>r.
              bindE (getitem V next_state) (\<lambda>v. Inr (prob * (r + gamma m * v))))))
            transitions)
       (\<lambda>terms. Inr (py_sum terms))))"

text \<open>\<^verbatim>\<open>{s: 0 for s in self.states}\<close>\<close>

definition zero_values :: "('s, 'a) MDP \<Rightarrow> ('s \<rightharpoonup> real)" where
  "zero_values m = fold (\<lambda>s V. V(s \<mapsto> 0)) (states m) Map.empty"

section \<open>Policy evaluation\<close>

text \<open>
  One pass of the body of the \<^verbatim>\<open>for s in self.states\<close> loop.  A policy maps a state to an
  action or to \<^verbatim>\<open>None\<close>; \<^verbatim>\<open>None\<close> is no key of \<^verbatim>\<open>self.P[s]\<close>, so reading
  \<^verbatim>\<open>self.P[s][None]\<close> raises \<^verbatim>\<open>KeyError\<close>.
\<close>

definition pe_update ::
  "('s, 'a) MDP \<Rightarrow> ('s \<rightharpoonup> 'a option) \<Rightarrow> 's \<Rightarrow> ('s \<rightharpoonup> real) \<times> real \<Rightarrow> error + (('s \<rightharpoonup> real) \<times> real)" where
  "pe_update m policy s = (\<lambda>(V, delta).
     if s \<in> terminal_states m then Inr (V, delta)
     else bindE (getitem policy s) (\<lambda>a.
          bindE (case a of None \<Rightarrow> Inl KeyError | Some a' \<Rightarrow> lookahead m V s a') (\<lambda>v.
          bindE (getitem V s) (\<lambda>old. Inr (V(s \<mapsto> v), max delta \<bar>old - v\<bar>)))))"

definition pe_sweep ::
  "('s, 'a) MDP \<Rightarrow> ('s \<rightharpoonup> 'a option) \<Rightarrow> ('s \<rightharpoonup> real) \<Rightarrow> error + (('s \<rightharpoonup> real) \<times> real)" where
  "pe_sweep m policy V = foldE (pe_update m policy) (states m) (V, 0)"

text \<open>The \<^verbatim>\<open>while True\<close> loop: it may run forever, which is the value \<open>None\<close>.\<close>

partial_function (option) pe_loop ::
  "('s, 'a) MDP \<Rightarrow> ('s \<rightharpoonup> 'a option) \<Rightarrow> real \<Rightarrow> ('s \<rightharpoonup> real) \<Rightarrow> (error + ('s \<rightharpoonup> real)) option" where
  "pe_loop m policy theta V =
     (case pe_sweep m policy V of
        Inl e \<Rightarrow> Some (Inl e)
      | Inr (V', delta) \<Rightarrow> if delta < theta then Some (Inr V') else pe_loop m policy theta V')"

definition policy_evaluation ::
  "('s, 'a) MDP \<Rightarrow> ('s \<rightharpoonup> 'a option) \<Rightarrow> real \<Rightarrow> (error + ('s \<rightharpoonup> real)) option" where
  "policy_evaluation m policy theta = pe_loop m policy theta (zero_values m)"

section \<open>Value iteration\<close>

definition vi_update ::
  "('s, 'a) MDP \<Rightarrow> 's \<Rightarrow> ('s \<rightharpoonup> real) \<times> real \<Rightarrow> error + (('s \<rightharpoonup> real) \<times> real)" where
  "vi_update m s = (\<lambda>(V, delta).
     if s \<in> terminal_states m then Inr (V, delta)
     else bindE (mapE (lookahead m V s) (actions m)) (\<lambda>qs.
          bindE (py_max qs) (\<lambda>v.
          bindE (getitem V s) (\<lambda>old. Inr (V(s \<mapsto> v), max delta \<bar>old - v\<bar>)))))"

definition vi_sweep :: "('s, 'a) MDP \<Rightarrow> ('s \<rightharpoonup> real) \<Rightarrow> error + (('s \<rightharpoonup> real) \<times> real)" where
  "vi_sweep m V = foldE (vi_update m) (states m) (V, 0)"

partial_function (option) vi_loop ::
  "('s, 'a) MDP \<Rightarrow> real \<Rightarrow> ('s \<rightharpoonup> real) \<Rightarrow> (error + ('s \<rightharpoonup> real)) option" where
  "vi_loop m theta V =
     (case vi_sweep m V of
        Inl e \<Rightarrow> Some (Inl e)
      | Inr (V', delta) \<Rightarrow> if delta < theta then Some (Inr V') else vi_loop m theta V')"

text \<open>The pass that derives the policy from the final values.\<close>

definition vi_policy_update ::
  "('s, 'a) MDP \<Rightarrow> ('s \<rightharpoonup> real) \<Rightarrow> 's \<Rightarrow> ('s \<rightharpoonup> 'a option) \<Rightarrow> error + ('s \<rightharpoonup> 'a option)" where
  "vi_policy_update m V s policy =
     (if s \<in> terminal_states m then Inr (policy(s \<mapsto> None))
      else bindE (py_max_key (lookahead m V s) (actions m)) (\<lambda>best_a.
           Inr (policy(s \<mapsto> Some best_a))))"

definition vi_policy :: "('s, 'a) MDP \<Rightarrow> ('s \<rightharpoonup> real) \<Rightarrow> error + ('s \<rightharpoonup> 'a option)" where
  "vi_policy m V = foldE (vi_policy_update m V) (states m) Map.empty"

definition value_iteration ::
  "('s, 'a) MDP \<Rightarrow> real \<Rightarrow> (error + (('s \<rightharpoonup> real) \<times> ('s \<rightharpoonup> 'a option))) option" where
  "value_iteration m theta =
     (case vi_loop m theta (zero_values m) of
        None \<Rightarrow> None
      | Some (Inl e) \<Rightarrow> Some (Inl e)
      | Some (Inr V) \<Rightarrow> Some (bindE (vi_policy m V) (\<lambda>policy. Inr (V, policy))))"

section \<open>The random source\<close>

text \<open>
  The code draws from Python's process-wide generator.  Here the generator is an explicit
  state: an infinite tape of numbers, of which every library call consumes the first.
  \<^verbatim>\<open>random.random()\<close> returns that number (in \<open>[0, 1)\<close> on a well-formed tape);
  \<^verbatim>\<open>random.choice(seq)\<close> raises \<^verbatim>\<open>IndexError\<close> on an empty sequence and otherwise
  returns the item at the index the number selects.
\<close>

type_synonym rng = "nat \<Rightarrow> real"

definition random :: "rng \<Rightarrow> real \<times> rng" where
  "random g = (g 0, \<lambda>n. g (Suc n))"

definition choice :: "'x list \<Rightarrow> rng \<Rightarrow> error + ('x \<times> rng)" where
  "choice xs g =
     (if xs = [] then Inl IndexError
      else (case random g of (u, g') \<Rightarrow>
              Inr (xs ! (nat \<lfloor>u * real (length xs)\<rfloor> mod length xs), g')))"

text \<open>
  \<^verbatim>\<open>random.choices(population, weights=w)[0]\<close>: the weights are accumulated, a total that is
  not positive raises \<^verbatim>\<open>ValueError\<close>, and the item is found by bisection
  (\<^verbatim>\<open>bisect_right\<close> between 0 and \<open>n - 1\<close>) of the scaled random number.
\<close>

fun accumulate :: "real \<Rightarrow> real list \<Rightarrow> real list" where
  "accumulate acc [] = []"
| "accumulate acc (w # ws) = (acc + w) # accumulate (acc + w) ws"

function bisect :: "real list \<Rightarrow> real \<Rightarrow> nat \<Rightarrow> nat \<Rightarrow> nat" where
  "bisect a x lo hi =
     (if lo < hi
      then (let mid = (lo + hi) div 2
            in if x < a ! mid then bisect a x lo mid else bisect a x (mid + 1) hi)
      else lo)"
  by pat_completeness auto
termination
  by (relation "measure (\<lambda>(a, x, lo, hi). hi - lo)") auto

declare bisect.simps [simp del]

definition choices :: "'x list \<Rightarrow> real list \<Rightarrow> rng \<Rightarrow> error + ('x \<times> rng)" where
  "choices population weights g =
     (let cum_weights = accumulate 0 weights
      in if cum_weights = [] then Inl IndexError
         else if last cum_weights \<le> 0 then Inl ValueError
         else (case random g of (u, g') \<Rightarrow>
                 Inr (population ! bisect cum_weights (u * last cum_weights) 0 (length population - 1), g')))"

section \<open>The simulator\<close>

text \<open>
  \<^verbatim>\<open>probs, next_states = zip(*transitions)\<close> raises \<^verbatim>\<open>ValueError\<close> on an empty transition
  list (nothing to unpack).
\<close>

definition step :: "('s, 'a) MDP \<Rightarrow> 's \<Rightarrow> 'a \<Rightarrow> rng \<Rightarrow> error + (('s \<times> real) \<times> rng)" where
  "step m state action g =
     (if state \<in> terminal_states m then Inr ((state, 0), g)
      else bindE (getitem (P m) state) (\<lambda>Ps. bindE (getitem Ps action) (\<lambda>transitions.
           if transitions = [] then Inl ValueError
           else bindE (choices (map snd transitions) (map fst transitions) g) (\<lambda>(next_state, g').
                bindE (getitem (R m) state) (\<lambda>Rs. bindE (getitem Rs action) (\<lambda>reward.
                Inr ((next_state, reward), g')))))))"

section \<open>Policy iteration\<close>

text \<open>
  \<^verbatim>\<open>{s: random.choice(self.actions) for s in self.states if s not in self.terminal_states}\<close>,
  then \<^verbatim>\<open>policy.update({s: None for s in self.terminal_states})\<close>.
\<close>

definition pi_init_update ::
  "('s, 'a) MDP \<Rightarrow> 's \<Rightarrow> ('s \<rightharpoonup> 'a option) \<times> rng \<Rightarrow> error + (('s \<rightharpoonup> 'a option) \<times> rng)" where
  "pi_init_update m s = (\<lambda>(policy, g).
     if s \<in> terminal_states m then Inr (policy, g)
     else bindE (choice (actions m) g) (\<lambda>(a, g'). Inr (policy(s \<mapsto> Some a), g')))"

definition pi_init :: "('s, 'a) MDP \<Rightarrow> rng \<Rightarrow> error + (('s \<rightharpoonup> 'a option) \<times> rng)" where
  "pi_init m g =
     bindE (foldE (pi_init_update m) (states m) (Map.empty, g)) (\<lambda>(policy, g').
     Inr (\<lambda>s. if s \<in> terminal_states m then Some None else policy s, g'))"

text \<open>The improvement pass: the body of the second \<^verbatim>\<open>for s in self.states\<close> loop.\<close>

definition pi_improve_update ::
  "('s, 'a) MDP \<Rightarrow> ('s \<rightharpoonup> real) \<Rightarrow> 's \<Rightarrow> ('s \<rightharpoonup> 'a option) \<times> bool
     \<Rightarrow> error + (('s \<rightharpoonup> 'a option) \<times> bool)" where
  "pi_improve_update m V s = (\<lambda>(policy, policy_stable).
     if s \<in> terminal_states m then Inr (policy, policy_stable)
     else bindE (getitem policy s) (\<lambda>old_action.
          bindE (py_max_key (lookahead m V s) (actions m)) (\<lambda>best_action.
          Inr (policy(s \<mapsto> Some best_action),
               if old_action \<noteq> Some best_action then False else policy_stable))))"

definition pi_improve ::
  "('s, 'a) MDP \<Rightarrow> ('s \<rightharpoonup> real) \<Rightarrow> ('s \<rightharpoonup> 'a option) \<Rightarrow> error + (('s \<rightharpoonup> 'a option) \<times> bool)" where
  "pi_improve m V policy = foldE (pi_improve_update m V) (states m) (policy, True)"

partial_function (option) pi_loop ::
  "('s, 'a) MDP \<Rightarrow> real \<Rightarrow> ('s \<rightharpoonup> 'a option)
     \<Rightarrow> (error + (('s \<rightharpoonup> real) \<times> ('s \<rightharpoonup> 'a option))) option" where
  "pi_loop m theta policy =
     Option.bind (policy_evaluation m policy theta) (\<lambda>r.
       case r of
         Inl e \<Rightarrow> Some (Inl e)
       | Inr V \<Rightarrow>
           (case pi_improve m V policy of
              Inl e \<Rightarrow> Some (Inl e)
            | Inr (policy', policy_stable) \<Rightarrow>
                if policy_stable then Some (Inr (V, policy')) else pi_loop m theta policy'))"

definition policy_iteration ::
  "('s, 'a) MDP \<Rightarrow> real \<Rightarrow> rng \<Rightarrow> (error + (('s \<rightharpoonup> real) \<times> ('s \<rightharpoonup> 'a option))) option" where
  "policy_iteration m theta g =
     (case pi_init m g of
        Inl e \<Rightarrow> Some (Inl e)
      | Inr (policy, g') \<Rightarrow> pi_loop m theta policy)"

section \<open>Q-learning\<close>

text \<open>
  A row of the Q-table is a dictionary whose key order matters (\<^verbatim>\<open>max\<close> scans it), so it
  is an association list in insertion order; assigning to a key that is present keeps its
  place.
\<close>

fun row_set :: "'k \<Rightarrow> 'v \<Rightarrow> ('k \<times> 'v) list \<Rightarrow> ('k \<times> 'v) list" where
  "row_set k v [] = [(k, v)]"
| "row_set k v ((k', v') # d) = (if k' = k then (k', v) # d else (k', v') # row_set k v d)"

text \<open>\<^verbatim>\<open>{s: {a: 0 for a in self.actions} for s in self.states}\<close>\<close>

definition zero_row :: "('s, 'a) MDP \<Rightarrow> ('a \<times> real) list" where
  "zero_row m = fold (\<lambda>a d. row_set a 0 d) (actions m) []"

definition zero_Q :: "('s, 'a) MDP \<Rightarrow> ('s \<rightharpoonup> ('a \<times> real) list)" where
  "zero_Q m = fold (\<lambda>s Q. Q(s \<mapsto> zero_row m)) (states m) Map.empty"

text \<open>
  The body of \<^verbatim>\<open>while state not in self.terminal_states\<close>.  \<^verbatim>\<open>max(Q[state], key=Q[state].get)\<close>
  scans the keys of the row, each with its own value.
\<close>

definition q_choose ::
  "('s, 'a) MDP \<Rightarrow> real \<Rightarrow> ('s \<rightharpoonup> ('a \<times> real) list) \<Rightarrow> 's \<Rightarrow> rng \<Rightarrow> error + ('a \<times> rng)" where
  "q_choose m epsilon Q state g =
     (case random g of (u, g1) \<Rightarrow>
        if u < epsilon then choice (actions m) g1
        else bindE (getitem Q state) (\<lambda>row. bindE (py_max_pairs row) (\<lambda>action. Inr (action, g1))))"

definition q_update ::
  "('s, 'a) MDP \<Rightarrow> real \<Rightarrow> ('s \<rightharpoonup> ('a \<times> real) list) \<Rightarrow> 's \<Rightarrow> 'a \<Rightarrow> 's \<Rightarrow> real
     \<Rightarrow> error + ('s \<rightharpoonup> ('a \<times> real) list)" where
  "q_update m alpha Q state action next_state reward =
     bindE (getitem Q state) (\<lambda>row.
     bindE (getitem (map_of row) action) (\<lambda>q.
     bindE (getitem Q next_state) (\<lambda>next_row.
     bindE (py_max (map snd next_row)) (\<lambda>best_next.
     Inr (Q(state \<mapsto> row_set action (q + alpha * (reward + gamma m * best_next - q)) row))))))"

definition q_step ::
  "('s, 'a) MDP \<Rightarrow> real \<Rightarrow> real \<Rightarrow> ('s \<rightharpoonup> ('a \<times> real) list) \<times> 's \<times> rng
     \<Rightarrow> error + (('s \<rightharpoonup> ('a \<times> real) list) \<times> 's \<times> rng)" where
  "q_step m alpha epsilon = (\<lambda>(Q, state, g).
     bindE (q_choose m epsilon Q state g) (\<lambda>(action, g1).
     bindE (step m state action g1) (\<lambda>((next_state, reward), g2).
     bindE (q_update m alpha Q state action next_state reward) (\<lambda>Q'.
     Inr (Q', next_state, g2)))))"

partial_function (option) q_episode ::
  "('s, 'a) MDP \<Rightarrow> real \<Rightarrow> real \<Rightarrow> ('s \<rightharpoonup> ('a \<times> real) list) \<times> 's \<times> rng
     \<Rightarrow> (error + (('s \<rightharpoonup> ('a \<times> real) list) \<times> rng)) option" where
  "q_episode m alpha epsilon c =
     (case c of (Q, state, g) \<Rightarrow>
        if state \<in> terminal_states m then Some (Inr (Q, g))
        else (case q_step m alpha epsilon (Q, state, g) of
                Inl e \<Rightarrow> Some (Inl e)
              | Inr c' \<Rightarrow> q_episode m alpha epsilon c'))"

text \<open>\<^verbatim>\<open>for _ in range(episodes)\<close>: each episode draws its start state first.\<close>

definition q_start :: "('s, 'a) MDP \<Rightarrow> rng \<Rightarrow> error + ('s \<times> rng)" where
  "q_start m g = choice (filter (\<lambda>s. s \<notin> terminal_states m) (states m)) g"

fun q_episodes ::
  "('s, 'a) MDP \<Rightarrow> real \<Rightarrow> real \<Rightarrow> nat \<Rightarrow> ('s \<rightharpoonup> ('a \<times> real) list) \<times> rng
     \<Rightarrow> (error + (('s \<rightharpoonup> ('a \<times> real) list) \<times> rng)) option" where
  "q_episodes m alpha epsilon 0 (Q, g) = Some (Inr (Q, g))"
| "q_episodes m alpha epsilon (Suc n) (Q, g) =
     (case q_start m g of
        Inl e \<Rightarrow> Some (Inl e)
      | Inr (state, g') \<Rightarrow>
          (case q_episode m alpha epsilon (Q, state, g') of
             None \<Rightarrow> None
           | Some (Inl e) \<Rightarrow> Some (Inl e)
           | Some (Inr c) \<Rightarrow> q_episodes m alpha epsilon n c))"

text \<open>The comprehension that derives the greedy policy from the final table.\<close>

definition q_policy_update ::
  "('s, 'a) MDP \<Rightarrow> ('s \<rightharpoonup> ('a \<times> real) list) \<Rightarrow> 's \<Rightarrow> ('s \<rightharpoonup> 'a option) \<Rightarrow> error + ('s \<rightharpoonup> 'a option)" where
  "q_policy_update m Q s policy =
     (if s \<notin> terminal_states m
      then bindE (getitem Q s) (\<lambda>row. bindE (py_max_pairs row) (\<lambda>a. Inr (policy(s \<mapsto> Some a))))
      else Inr (policy(s \<mapsto> None)))"

definition q_policy ::
  "('s, 'a) MDP \<Rightarrow> ('s \<rightharpoonup> ('a \<times> real) list) \<Rightarrow> error + ('s \<rightharpoonup> 'a option)" where
  "q_policy m Q = foldE (q_policy_update m Q) (states m) Map.empty"

text \<open>\<^verbatim>\<open>range(episodes)\<close> is empty for a negative count.\<close>

definition q_learning ::
  "('s, 'a) MDP \<Rightarrow> int \<Rightarrow> real \<Rightarrow> real \<Rightarrow> rng
     \<Rightarrow> (error + (('s \<rightharpoonup> ('a \<times> real) list) \<times> ('s \<rightharpoonup> 'a option))) option" where
  "q_learning m episodes alpha epsilon g =
     (case q_episodes m alpha epsilon (nat episodes) (zero_Q m, g) of
        None \<Rightarrow> None
      | Some (Inl e) \<Rightarrow> Some (Inl e)
      | Some (Inr (Q, g')) \<Rightarrow> Some (bindE (q_policy m Q) (\<lambda>policy. Inr (Q, policy))))"

section \<open>Notions used to state the properties\<close>

text \<open>The entry \<open>Q(s, a)\<close> of a Q-table, when it exists.\<close>

definition Q_entry :: "('s \<rightharpoonup> ('a \<times> real) list) \<Rightarrow> 's \<Rightarrow> 'a \<Rightarrow> real option" where
  "Q_entry Q s a = (case Q s of None \<Rightarrow> None | Some row \<Rightarrow> map_of row a)"

text \<open>Every entry of every terminal state's row is 0.\<close>

definition terminal_rows_zero :: "('s, 'a) MDP \<Rightarrow> ('s \<rightharpoonup> ('a \<times> real) list) \<Rightarrow> bool" where
  "terminal_rows_zero m Q \<longleftrightarrow>
     (\<forall>s\<in>set (states m). s \<in> terminal_states m \<longrightarrow> (\<forall>a\<in>set (actions m). Q_entry Q s a = Some 0))"

text \<open>
  Total readings of the tables, and with them the one-step lookahead expectation as the
  specification writes it: \<open>\<Sum>\<^bsub>(p, s') \<in> P(s, a)\<^esub> p \<sqdot> (R(s, a) + \<gamma> \<sqdot> V(s'))\<close>.
\<close>

definition value_of :: "('s \<rightharpoonup> real) \<Rightarrow> 's \<Rightarrow> real" where
  "value_of V s = (case V s of None \<Rightarrow> 0 | Some v \<Rightarrow> v)"

definition transitions_of :: "('s, 'a) MDP \<Rightarrow> 's \<Rightarrow> 'a \<Rightarrow> (real \<times> 's) list" where
  "transitions_of m s a =
     (case P m s of None \<Rightarrow> [] | Some Ps \<Rightarrow> (case Ps a of None \<Rightarrow> [] | Some ts \<Rightarrow> ts))"



text \<open>
  The well-formedness of a model as the data model describes it; the code never checks it.
  Every (state, action) pair has a transition list of non-negative probabilities that sum
  to 1 and lead to known states, and a reward; states are listed once; there is an action;
  terminal states are states; the discount factor lies in \<open>[0, 1)\<close>.
\<close>

definition valid_model :: "('s, 'a) MDP \<Rightarrow> bool" where
  "valid_model m \<longleftrightarrow>
     states m \<noteq> [] \<and> distinct (states m) \<and> actions m \<noteq> [] \<and>
     terminal_states m \<subseteq> set (states m) \<and> 0 \<le> gamma m \<and> gamma m < 1 \<and>
     (\<forall>s\<in>set (states m). \<forall>a\<in>set (actions m).
        (case P m s of None \<Rightarrow> False
         | Some Ps \<Rightarrow> (case Ps a of None \<Rightarrow> False
             | Some ts \<Rightarrow> (\<forall>(p, s')\<in>set ts. 0 \<le> p \<and> s' \<in> set (states m)) \<and> sum_list (map fst ts) = 1))
        \<and> (case R m s of None \<Rightarrow> False | Some Rs \<Rightarrow> Rs a \<noteq> None))"

section \<open>Example models\<close>

text \<open>The model that \<^verbatim>\<open>main()\<close> builds.\<close>

definition main_mdp :: "(string, string) MDP" where
  "main_mdp = MDP_init [''s0'', ''s1'', ''s2''] [''a0'', ''a1'']
     [''s0'' \<mapsto> [''a0'' \<mapsto> [(8/10, ''s0''), (2/10, ''s1'')], ''a1'' \<mapsto> [(5/10, ''s1''), (5/10, ''s2'')]],
      ''s1'' \<mapsto> [''a0'' \<mapsto> [(1, ''s0'')], ''a1'' \<mapsto> [(1, ''s2'')]],
      ''s2'' \<mapsto> [''a0'' \<mapsto> [(1, ''s2'')], ''a1'' \<mapsto> [(1, ''s2'')]]]
     [''s0'' \<mapsto> [''a0'' \<mapsto> 0, ''a1'' \<mapsto> 1],
      ''s1'' \<mapsto> [''a0'' \<mapsto> 0, ''a1'' \<mapsto> 2],
      ''s2'' \<mapsto> [''a0'' \<mapsto> 0, ''a1'' \<mapsto> 0]]
     (9/10) (Some {''s2''})"


text \<open>A model whose only transition list sums to 0.9, and one that names an unknown state.\<close>

definition leaky_mdp :: "(string, string) MDP" where
  "leaky_mdp = MDP_init [''s0'', ''s1''] [''a0'']
     [''s0'' \<mapsto> [''a0'' \<mapsto> [(9/10, ''s1'')]], ''s1'' \<mapsto> [''a0'' \<mapsto> [(1, ''s1'')]]]
     [''s0'' \<mapsto> [''a0'' \<mapsto> 1], ''s1'' \<mapsto> [''a0'' \<mapsto> 0]]
     (9/10) (Some {''s1''})"

definition dangling_mdp :: "(string, string) MDP" where
  "dangling_mdp = MDP_init [''s0'', ''s1''] [''a0'']
     [''s0'' \<mapsto> [''a0'' \<mapsto> [(1, ''s9'')]], ''s1'' \<mapsto> [''a0'' \<mapsto> [(1, ''s1'')]]]
     [''s0'' \<mapsto> [''a0'' \<mapsto> 1], ''s1'' \<mapsto> [''a0'' \<mapsto> 0]]
     (9/10) (Some {''s1''})"

text \<open>A tape of the random source: 0 first, then 1/2 forever.\<close>

definition tape :: rng where
  "tape = (\<lambda>n. if n = 0 then 0 else 1/2)"

text \<open>A model in which every state is terminal.\<close>

definition all_terminal_mdp :: "(string, string) MDP" where
  "all_terminal_mdp =
     MDP_init [''s0'', ''s1''] [''a0''] Map.empty Map.empty (9/10) (Some {''s0'', ''s1''})"

text \<open>
  The values and the policy that value iteration and policy iteration reach on the model of
  \<^verbatim>\<open>main()\<close>.
\<close>

definition main_V :: "string \<rightharpoonup> real" where
  "main_V = [''s0'' \<mapsto> 19/10, ''s1'' \<mapsto> 2, ''s2'' \<mapsto> 0]"

definition main_policy :: "string \<rightharpoonup> string option" where
  "main_policy = [''s0'' \<mapsto> Some ''a1'', ''s1'' \<mapsto> Some ''a1'', ''s2'' \<mapsto> None]"








section \<open>Basic facts\<close>

lemma bindE_Inr_iff: "bindE r f = Inr y \<longleftrightarrow> (\<exists>v. r = Inr v \<and> f v = Inr y)"
  by (cases r) (simp_all add: bindE_def)

lemma bindE_simps [simp]: "bindE (Inl e) f = Inl e" "bindE (Inr v) f = f v"
  by (simp_all add: bindE_def)

lemma getitem_Inr_iff: "getitem d k = Inr v \<longleftrightarrow> d k = Some v"
  by (simp add: getitem_def split: option.splits)

lemma getitem_simps [simp]: "d k = Some v \<Longrightarrow> getitem d k = Inr v" "d k = None \<Longrightarrow> getitem d k = Inl KeyError"
  by (simp_all add: getitem_def)

lemma foldE_invariant:
  assumes "foldE f xs c = Inr c'" and "I c"
    and "\<And>x d d'. x \<in> set xs \<Longrightarrow> I d \<Longrightarrow> f x d = Inr d' \<Longrightarrow> I d'"
  shows "I c'"
  using assms
proof (induction xs arbitrary: c)
  case Nil
  then show ?case by simp
next
  case (Cons x xs)
  from Cons.prems(1) obtain d where d: "f x c = Inr d" and rest: "foldE f xs d = Inr c'"
    by (auto simp: bindE_Inr_iff)
  have "I d" using Cons.prems(3)[of x c d] d Cons.prems(2) by simp
  show ?case
  proof (rule Cons.IH[OF rest \<open>I d\<close>])
    fix y e e' assume "y \<in> set xs" "I e" "f y e = Inr e'"
    then show "I e'" using Cons.prems(3)[of y e e'] by simp
  qed
qed

lemma map_of_row_set: "map_of (row_set k v d) k' = (if k' = k then Some v else map_of d k')"
  by (induction d) auto

lemma map_of_zero_row_aux:
  "map_of (fold (\<lambda>a d. row_set a (0::real) d) as d0) a =
     (if a \<in> set as then Some 0 else map_of d0 a)"
  by (induction as arbitrary: d0) (auto simp: map_of_row_set)

lemma map_of_zero_row: "map_of (zero_row m) a = (if a \<in> set (actions m) then Some 0 else None)"
  by (simp add: zero_row_def map_of_zero_row_aux)

lemma zero_Q_aux:
  "fold (\<lambda>s Q. Q(s \<mapsto> r)) ss Q0 s = (if s \<in> set ss then Some r else Q0 s)"
  by (induction ss arbitrary: Q0) auto

lemma zero_Q_apply: "zero_Q m s = (if s \<in> set (states m) then Some (zero_row m) else None)"
  by (simp add: zero_Q_def zero_Q_aux)

lemma Q_entry_zero_Q:
  "Q_entry (zero_Q m) s a = (if s \<in> set (states m) \<and> a \<in> set (actions m) then Some 0 else None)"
  by (simp add: Q_entry_def zero_Q_apply map_of_zero_row)

lemma zero_values_apply: "zero_values m s = (if s \<in> set (states m) then Some 0 else None)"
  by (simp add: zero_values_def zero_Q_aux)

lemma max_from_Max: "max_from b xs = Max (set (b # xs))"
proof (induction xs arbitrary: b)
  case Nil
  then show ?case by simp
next
  case (Cons x xs)
  have "Max (insert b (insert x (set xs))) = Max (insert (max b x) (set xs))"
    by (cases "set xs = {}") (simp_all add: max.assoc)
  moreover have "(if b < x then x else b) = max b x" by (simp add: max_def)
  ultimately show ?case using Cons.IH[of "max b x"] by simp
qed

lemma py_max_Inr_iff: "py_max xs = Inr v \<longleftrightarrow> xs \<noteq> [] \<and> v = Max (set xs)"
  by (cases xs) (auto simp: py_max_def max_from_Max)

lemma main_mdp_fields:
  "states main_mdp = [''s0'', ''s1'', ''s2'']" "actions main_mdp = [''a0'', ''a1'']"
  "gamma main_mdp = 9/10" "terminal_states main_mdp = {''s2''}"
  by (simp_all add: main_mdp_def MDP_init_def)

section \<open>The simulator on terminal states\<close>

text \<open>
  Claim C5.  For a terminal state, \<^verbatim>\<open>step\<close> returns the same state and reward 0 for every
  action, whatever the transition kernel and the reward table hold (they may even be
  empty), and it leaves the random source untouched.
\<close>

theorem step_terminal:
  "state \<in> terminal_states m \<Longrightarrow> step (m\<lparr>P := tp, R := rw\<rparr>) state action g = Inr ((state, 0), g)"
  by (simp add: step_def)

theorem step_terminal_witness:
  "''s2'' \<in> terminal_states main_mdp \<and>
   step (main_mdp\<lparr>P := Map.empty, R := Map.empty\<rparr>) ''s2'' ''a1'' tape = Inr ((''s2'', 0), tape)"
  using step_terminal[where state="''s2''" and m=main_mdp and tp=Map.empty and rw=Map.empty
      and action="''a1''" and g=tape]
  by (simp add: main_mdp_def MDP_init_def)

section \<open>The start state of an episode\<close>

lemma choice_Inl_iff: "choice xs g = Inl e \<longleftrightarrow> xs = [] \<and> e = IndexError"
  by (auto simp: choice_def split: prod.splits)

lemma choice_Inr_mem: "choice xs g = Inr (x, g') \<Longrightarrow> x \<in> set xs"
  by (auto simp: choice_def split: prod.splits if_splits)

lemma q_start_all_terminal:
  "(\<forall>s\<in>set (states m). s \<in> terminal_states m) \<Longrightarrow> q_start m g = Inl IndexError"
  by (simp add: q_start_def choice_def filter_empty_conv)

text \<open>
  Claim C10.  Drawing the start state of an episode fails, with \<^verbatim>\<open>IndexError\<close>, exactly
  when no state is non-terminal; then \<^verbatim>\<open>q_learning\<close> with at least one episode raises that
  error and returns neither a Q-table nor a policy.  When some state is non-terminal the
  draw succeeds and yields a non-terminal state.
\<close>

theorem q_learning_start_state:
  "(q_start m g = Inl IndexError \<longleftrightarrow> (\<forall>s\<in>set (states m). s \<in> terminal_states m))
   \<and> (\<forall>e. q_start m g = Inl e \<longrightarrow> e = IndexError)
   \<and> ((\<exists>s\<in>set (states m). s \<notin> terminal_states m) \<longrightarrow>
        (\<exists>s g'. q_start m g = Inr (s, g') \<and> s \<in> set (states m) \<and> s \<notin> terminal_states m))
   \<and> ((\<forall>s\<in>set (states m). s \<in> terminal_states m) \<and> 1 \<le> episodes \<longrightarrow>
        q_learning m episodes alpha epsilon g = Some (Inl IndexError))"
proof (intro conjI impI allI)
  show "q_start m g = Inl IndexError \<longleftrightarrow> (\<forall>s\<in>set (states m). s \<in> terminal_states m)"
    by (auto simp: q_start_def choice_Inl_iff filter_empty_conv)
  show "e = IndexError" if "q_start m g = Inl e" for e
    using that by (simp add: q_start_def choice_Inl_iff)
  show "\<exists>s g'. q_start m g = Inr (s, g') \<and> s \<in> set (states m) \<and> s \<notin> terminal_states m"
    if "\<exists>s\<in>set (states m). s \<notin> terminal_states m"
  proof -
    from that have ne: "filter (\<lambda>s. s \<notin> terminal_states m) (states m) \<noteq> []"
      by (auto simp: filter_empty_conv)
    then obtain s g' where sg: "q_start m g = Inr (s, g')"
      by (cases "q_start m g") (auto simp: q_start_def choice_Inl_iff)
    then have "s \<in> set (filter (\<lambda>s. s \<notin> terminal_states m) (states m))"
      unfolding q_start_def by (rule choice_Inr_mem)
    with sg show ?thesis by auto
  qed
  show "q_learning m episodes alpha epsilon g = Some (Inl IndexError)"
    if h: "(\<forall>s\<in>set (states m). s \<in> terminal_states m) \<and> 1 \<le> episodes"
  proof -
    from h obtain n where n: "nat episodes = Suc n" by (cases "nat episodes") auto
    from h have "q_start m g = Inl IndexError" by (simp add: q_start_all_terminal)
    then show ?thesis by (simp add: q_learning_def n)
  qed
qed

theorem q_learning_start_state_witness:
  "set (states all_terminal_mdp) \<subseteq> terminal_states all_terminal_mdp \<and> (1::int) \<le> 5
   \<and> q_learning all_terminal_mdp 5 (1/10) (1/10) tape = Some (Inl IndexError)
   \<and> (\<exists>s\<in>set (states main_mdp). s \<notin> terminal_states main_mdp)
   \<and> q_start main_mdp tape = Inr (''s0'', \<lambda>n. 1/2)"
proof -
  have a: "\<forall>s\<in>set (states all_terminal_mdp). s \<in> terminal_states all_terminal_mdp"
    by (simp add: all_terminal_mdp_def MDP_init_def)
  have b: "\<exists>s\<in>set (states main_mdp). s \<notin> terminal_states main_mdp"
    by (simp add: main_mdp_def MDP_init_def)
  have c: "q_start main_mdp tape = Inr (''s0'', \<lambda>n. 1/2)"
    by (simp add: q_start_def choice_def random_def tape_def main_mdp_def MDP_init_def)
  from a q_learning_start_state[of all_terminal_mdp tape 5 "1/10" "1/10"]
  have "q_learning all_terminal_mdp 5 (1/10) (1/10) tape = Some (Inl IndexError)" by simp
  moreover from b q_learning_start_state[of main_mdp tape 5 "1/10" "1/10"]
  have "\<exists>s g'. q_start main_mdp tape = Inr (s, g')" by blast
  moreover from a have "set (states all_terminal_mdp) \<subseteq> terminal_states all_terminal_mdp"
    by blast
  ultimately show ?thesis using b c by simp
qed

section \<open>The Q-learning update\<close>

lemma q_step_effect:
  assumes "q_step m alpha epsilon (Q, s, g) = Inr (Q', s', g')"
  shows "\<exists>a g1 reward q next_row.
           q_choose m epsilon Q s g = Inr (a, g1) \<and>
           step m s a g1 = Inr ((s', reward), g') \<and>
           Q_entry Q s a = Some q \<and> Q s' = Some next_row \<and> next_row \<noteq> [] \<and>
           (\<forall>s2 a2. Q_entry Q' s2 a2 =
              (if s2 = s \<and> a2 = a
               then Some (q + alpha * (reward + gamma m * Max (snd ` set next_row) - q))
               else Q_entry Q s2 a2))"
proof -
  from assms obtain a g1 reward Q1 where
    ch: "q_choose m epsilon Q s g = Inr (a, g1)" and
    st: "step m s a g1 = Inr ((s', reward), g')" and
    up: "q_update m alpha Q s a s' reward = Inr Q1" and Q1: "Q' = Q1"
    by (auto simp: q_step_def bindE_Inr_iff)
  from up obtain row q next_row best where
    row: "Q s = Some row" and q: "map_of row a = Some q" and
    nrow: "Q s' = Some next_row" and best: "py_max (map snd next_row) = Inr best" and
    Q1': "Q1 = Q(s \<mapsto> row_set a (q + alpha * (reward + gamma m * best - q)) row)"
    by (auto simp: q_update_def bindE_Inr_iff getitem_Inr_iff)
  from best have ne: "next_row \<noteq> []" and b: "best = Max (snd ` set next_row)"
    by (auto simp: py_max_Inr_iff)
  have "Q_entry Q' s2 a2 =
          (if s2 = s \<and> a2 = a
           then Some (q + alpha * (reward + gamma m * Max (snd ` set next_row) - q))
           else Q_entry Q s2 a2)" for s2 a2
    by (simp add: Q1 Q1' Q_entry_def row map_of_row_set b)
  moreover have "Q_entry Q s a = Some q" by (simp add: Q_entry_def row q)
  ultimately show ?thesis using ch st nrow ne by blast
qed

text \<open>
  Claim C6.  The Q-table starts with 0 at every (state, action) pair.  One pass of the
  body of the episode loop at state \<open>s\<close> chooses an action \<open>a\<close>, obtains
  \<open>(next_state, reward)\<close> from \<^verbatim>\<open>step\<close>, and changes the table at the entry \<open>(s, a)\<close> only,
  which becomes \<open>Q(s, a) + \<alpha> \<sqdot> (reward + \<gamma> \<sqdot> max\<^bsub>a'\<^esub> Q(next_state, a') - Q(s, a))\<close>, the
  maximum being over the row of \<open>next_state\<close> before the update.
\<close>

theorem q_learning_update:
  "(\<forall>s a. Q_entry (zero_Q m) s a =
            (if s \<in> set (states m) \<and> a \<in> set (actions m) then Some 0 else None))
   \<and> (q_step m alpha epsilon (Q, s, g) = Inr (Q', s', g') \<longrightarrow>
        (\<exists>a g1 reward q next_row.
           q_choose m epsilon Q s g = Inr (a, g1) \<and>
           step m s a g1 = Inr ((s', reward), g') \<and>
           Q_entry Q s a = Some q \<and> Q s' = Some next_row \<and> next_row \<noteq> [] \<and>
           (\<forall>s2 a2. Q_entry Q' s2 a2 =
              (if s2 = s \<and> a2 = a
               then Some (q + alpha * (reward + gamma m * Max (snd ` set next_row) - q))
               else Q_entry Q s2 a2))))"
  using q_step_effect[of m alpha epsilon Q s g Q' s' g'] by (simp add: Q_entry_zero_Q)

lemma q_step_main:
  "q_step main_mdp (1/10) (1/10) (zero_Q main_mdp, ''s1'', tape) =
     Inr ((zero_Q main_mdp)(''s1'' \<mapsto> [(''a0'', 0), (''a1'', 1/5)]), ''s2'', \<lambda>n. 1/2)"
  by (simp add: q_step_def q_choose_def q_update_def step_def choices_def choice_def random_def
      tape_def bisect.simps py_max_def zero_Q_def zero_row_def main_mdp_def MDP_init_def)

theorem q_learning_update_witness:
  "q_step main_mdp (1/10) (1/10) (zero_Q main_mdp, ''s1'', tape) =
     Inr ((zero_Q main_mdp)(''s1'' \<mapsto> [(''a0'', 0), (''a1'', 1/5)]), ''s2'', \<lambda>n. 1/2)
   \<and> Q_entry ((zero_Q main_mdp)(''s1'' \<mapsto> [(''a0'', 0), (''a1'', 1/5)])) ''s1'' ''a1'' = Some (1/5)
   \<and> (\<exists>a g1 reward q next_row.
         q_choose main_mdp (1/10) (zero_Q main_mdp) ''s1'' tape = Inr (a, g1) \<and>
         step main_mdp ''s1'' a g1 = Inr ((''s2'', reward), \<lambda>n. 1/2) \<and>
         Q_entry (zero_Q main_mdp) ''s1'' a = Some q \<and>
         zero_Q main_mdp ''s2'' = Some next_row \<and> next_row \<noteq> [] \<and>
         (\<forall>s2 a2. Q_entry ((zero_Q main_mdp)(''s1'' \<mapsto> [(''a0'', 0), (''a1'', 1/5)])) s2 a2 =
            (if s2 = ''s1'' \<and> a2 = a
             then Some (q + 1/10 * (reward + gamma main_mdp * Max (snd ` set next_row) - q))
             else Q_entry (zero_Q main_mdp) s2 a2)))"
proof -
  have e: "Q_entry ((zero_Q main_mdp)(''s1'' \<mapsto> [(''a0'', 0), (''a1'', 1/5)])) ''s1'' ''a1'' = Some (1/5)"
    by (simp add: Q_entry_def)
  from q_learning_update[of main_mdp "1/10" "1/10" "zero_Q main_mdp" "''s1''" tape
      "(zero_Q main_mdp)(''s1'' \<mapsto> [(''a0'', 0), (''a1'', 1/5)])" "''s2''" "\<lambda>n. 1/2"] q_step_main
  show ?thesis using e by blast
qed

section \<open>Terminal rows of the Q-table\<close>

lemma q_step_keeps_terminal_rows:
  assumes "q_step m alpha epsilon (Q, s, g) = Inr (Q', s', g')" and "s \<notin> terminal_states m"
    and "terminal_rows_zero m Q"
  shows "terminal_rows_zero m Q'"
proof -
  from q_step_effect[OF assms(1)] obtain a where
    "\<forall>s2 a2. s2 \<noteq> s \<longrightarrow> Q_entry Q' s2 a2 = Q_entry Q s2 a2"
    by (metis (no_types, lifting))
  with assms(2,3) show ?thesis
    unfolding terminal_rows_zero_def by metis
qed

lemma q_episode_terminal_rows_aux:
  "q_episode m alpha epsilon c = Some r \<Longrightarrow>
     terminal_rows_zero m (fst c) \<longrightarrow> (\<forall>Q' g'. r = Inr (Q', g') \<longrightarrow> terminal_rows_zero m Q')"
proof (erule q_episode.raw_induct[rotated], goal_cases)
  case (1 q_ep m alpha epsilon c r)
  obtain Q s g where c: "c = (Q, s, g)" by (cases c) auto
  show ?case
  proof (intro allI impI)
    fix Q' g'
    assume inv: "terminal_rows_zero m (fst c)" and r: "r = Inr (Q', g')"
    show "terminal_rows_zero m Q'"
    proof (cases "s \<in> terminal_states m")
      case True
      with 1(2) c r have "Q' = Q" by simp
      with inv c show ?thesis by simp
    next
      case False
      with 1(2) c obtain Q1 s1 g1 where
        st: "q_step m alpha epsilon (Q, s, g) = Inr (Q1, s1, g1)" and
        rec: "q_ep m alpha epsilon (Q1, s1, g1) = Some r"
        by (cases "q_step m alpha epsilon (Q, s, g)") (auto simp: r)
      have "terminal_rows_zero m Q1" using q_step_keeps_terminal_rows[OF st False] inv c by simp
      with 1(1)[OF rec] r show ?thesis by simp
    qed
  qed
qed

lemma q_episode_terminal_rows:
  "q_episode m alpha epsilon (Q, s, g) = Some (Inr (Q', g')) \<Longrightarrow> terminal_rows_zero m Q
     \<Longrightarrow> terminal_rows_zero m Q'"
  using q_episode_terminal_rows_aux[of m alpha epsilon "(Q, s, g)" "Inr (Q', g')"] by simp

lemma q_episodes_terminal_rows:
  "q_episodes m alpha epsilon n (Q, g) = Some (Inr (Q', g')) \<Longrightarrow> terminal_rows_zero m Q
     \<Longrightarrow> terminal_rows_zero m Q'"
proof (induction n arbitrary: Q g)
  case 0
  then show ?case by simp
next
  case (Suc n)
  from Suc.prems(1) obtain s g1 Q1 g2 where
    "q_episode m alpha epsilon (Q, s, g1) = Some (Inr (Q1, g2))"
    "q_episodes m alpha epsilon n (Q1, g2) = Some (Inr (Q', g'))"
    by (auto split: sum.splits option.splits)
  then show ?case
    using Suc.IH[of Q1 g2] q_episode_terminal_rows[of m alpha epsilon Q s g1 Q1 g2] Suc.prems(2)
    by blast
qed

text \<open>
  Claim C9.  The rows of terminal states are all 0 in the initial Q-table, stay so under
  every pass of the loop body (which the loop guard runs at non-terminal states only),
  and are so in the table that \<^verbatim>\<open>q_learning\<close> returns.
\<close>

theorem q_learning_terminal_rows_zero:
  "terminal_rows_zero m (zero_Q m)
   \<and> (s \<notin> terminal_states m \<and> terminal_rows_zero m Q \<and> q_step m alpha epsilon (Q, s, g) = Inr (Q', s', g')
        \<longrightarrow> terminal_rows_zero m Q')
   \<and> (q_learning m episodes alpha epsilon g0 = Some (Inr (Qf, policy)) \<longrightarrow> terminal_rows_zero m Qf)"
proof (intro conjI impI)
  show z: "terminal_rows_zero m (zero_Q m)"
    by (simp add: terminal_rows_zero_def Q_entry_zero_Q)
  show "terminal_rows_zero m Q'"
    if "s \<notin> terminal_states m \<and> terminal_rows_zero m Q \<and> q_step m alpha epsilon (Q, s, g) = Inr (Q', s', g')"
    using that by (auto intro: q_step_keeps_terminal_rows)
  show "terminal_rows_zero m Qf" if "q_learning m episodes alpha epsilon g0 = Some (Inr (Qf, policy))"
  proof -
    from that obtain gf where "q_episodes m alpha epsilon (nat episodes) (zero_Q m, g0) = Some (Inr (Qf, gf))"
      by (auto simp: q_learning_def bindE_Inr_iff split: option.splits sum.splits)
    then show ?thesis using q_episodes_terminal_rows z by blast
  qed
qed

lemma q_step_main_explore:
  "q_step main_mdp (1/10) 1 (zero_Q main_mdp, ''s0'', \<lambda>n. 1/2) =
     Inr ((zero_Q main_mdp)(''s0'' \<mapsto> [(''a0'', 0), (''a1'', 1/10)]), ''s2'', \<lambda>n. 1/2)"
  by (simp add: q_step_def q_choose_def q_update_def step_def choices_def choice_def random_def
      bisect.simps py_max_def zero_Q_def zero_row_def main_mdp_def MDP_init_def)

lemma q_episode_main:
  "q_episode main_mdp (1/10) 1 (zero_Q main_mdp, ''s0'', \<lambda>n. 1/2) =
     Some (Inr ((zero_Q main_mdp)(''s0'' \<mapsto> [(''a0'', 0), (''a1'', 1/10)]), \<lambda>n. 1/2))"
  apply (subst q_episode.simps)
  apply (simp add: q_step_main_explore main_mdp_fields)
  apply (subst q_episode.simps)
  apply (simp add: main_mdp_fields)
  done

lemma q_learning_main:
  "q_learning main_mdp 1 (1/10) 1 tape =
     Some (Inr ((zero_Q main_mdp)(''s0'' \<mapsto> [(''a0'', 0), (''a1'', 1/10)]),
                [''s0'' \<mapsto> Some ''a1'', ''s1'' \<mapsto> Some ''a0'', ''s2'' \<mapsto> None]))"
proof -
  have st: "q_start main_mdp tape = Inr (''s0'', \<lambda>n. 1/2)"
    by (simp add: q_start_def choice_def random_def tape_def main_mdp_fields)
  have ep: "q_episodes main_mdp (1/10) 1 (nat 1) (zero_Q main_mdp, tape) =
      Some (Inr ((zero_Q main_mdp)(''s0'' \<mapsto> [(''a0'', 0), (''a1'', 1/10)]), \<lambda>n. 1/2))"
    by (simp add: st q_episode_main)
  have pol: "q_policy main_mdp ((zero_Q main_mdp)(''s0'' \<mapsto> [(''a0'', 0), (''a1'', 1/10)])) =
      Inr [''s0'' \<mapsto> Some ''a1'', ''s1'' \<mapsto> Some ''a0'', ''s2'' \<mapsto> None]"
    by (simp add: q_policy_def q_policy_update_def py_max_pairs_def zero_Q_def zero_row_def main_mdp_fields)
  show ?thesis by (simp only: q_learning_def ep) (simp add: pol)
qed

theorem q_learning_terminal_rows_zero_witness:
  "''s0'' \<notin> terminal_states main_mdp \<and> terminal_rows_zero main_mdp (zero_Q main_mdp)
   \<and> q_step main_mdp (1/10) 1 (zero_Q main_mdp, ''s0'', \<lambda>n. 1/2) =
       Inr ((zero_Q main_mdp)(''s0'' \<mapsto> [(''a0'', 0), (''a1'', 1/10)]), ''s2'', \<lambda>n. 1/2)
   \<and> q_learning main_mdp 1 (1/10) 1 tape =
       Some (Inr ((zero_Q main_mdp)(''s0'' \<mapsto> [(''a0'', 0), (''a1'', 1/10)]),
                  [''s0'' \<mapsto> Some ''a1'', ''s1'' \<mapsto> Some ''a0'', ''s2'' \<mapsto> None]))
   \<and> terminal_rows_zero main_mdp ((zero_Q main_mdp)(''s0'' \<mapsto> [(''a0'', 0), (''a1'', 1/10)]))
   \<and> Q_entry ((zero_Q main_mdp)(''s0'' \<mapsto> [(''a0'', 0), (''a1'', 1/10)])) ''s2'' ''a1'' = Some 0"
proof -
  have nt: "''s0'' \<notin> terminal_states main_mdp" by (simp add: main_mdp_fields)
  note inst = q_learning_terminal_rows_zero[of main_mdp "''s0''" "zero_Q main_mdp" "1/10" 1 "\<lambda>n. 1/2"
      "(zero_Q main_mdp)(''s0'' \<mapsto> [(''a0'', 0), (''a1'', 1/10)])" "''s2''" "\<lambda>n. 1/2" 1 tape
      "(zero_Q main_mdp)(''s0'' \<mapsto> [(''a0'', 0), (''a1'', 1/10)])"
      "[''s0'' \<mapsto> Some ''a1'', ''s1'' \<mapsto> Some ''a0'', ''s2'' \<mapsto> None]"]
  from inst have z: "terminal_rows_zero main_mdp (zero_Q main_mdp)" by blast
  from inst q_learning_main
  have f: "terminal_rows_zero main_mdp ((zero_Q main_mdp)(''s0'' \<mapsto> [(''a0'', 0), (''a1'', 1/10)]))"
    by blast
  have e: "Q_entry ((zero_Q main_mdp)(''s0'' \<mapsto> [(''a0'', 0), (''a1'', 1/10)])) ''s2'' ''a1'' = Some 0"
    using f by (simp add: terminal_rows_zero_def main_mdp_fields)
  show ?thesis using nt z f e q_step_main_explore q_learning_main by simp
qed

section \<open>Terminal states in the results\<close>

lemma foldE_key_written:
  assumes "foldE f xs c = Inr c'"
    and "t \<in> set xs \<or> c t = w"
    and "\<And>x d d'. f x d = Inr d' \<Longrightarrow> x \<noteq> t \<Longrightarrow> d' t = d t"
    and "\<And>d d'. f t d = Inr d' \<Longrightarrow> d' t = w"
  shows "c' t = w"
  using assms(1,2)
proof (induction xs arbitrary: c)
  case Nil
  then show ?case by simp
next
  case (Cons x xs)
  from Cons.prems(1) obtain d where d: "f x c = Inr d" and rest: "foldE f xs d = Inr c'"
    by (auto simp: bindE_Inr_iff)
  have "t \<in> set xs \<or> d t = w"
  proof (cases "x = t")
    case True
    with d assms(4) show ?thesis by simp
  next
    case False
    with Cons.prems(2) assms(3)[OF d False] show ?thesis by auto
  qed
  then show ?case by (rule Cons.IH[OF rest])
qed

lemma pe_update_terminal_value:
  "pe_update m policy s (V, d) = Inr (V', d') \<Longrightarrow> t \<in> terminal_states m \<Longrightarrow> V' t = V t"
  by (auto simp: pe_update_def bindE_Inr_iff split: if_splits)

lemma vi_update_terminal_value:
  "vi_update m s (V, d) = Inr (V', d') \<Longrightarrow> t \<in> terminal_states m \<Longrightarrow> V' t = V t"
  by (auto simp: vi_update_def bindE_Inr_iff split: if_splits)

lemma pe_sweep_terminal_value:
  assumes "pe_sweep m policy V = Inr (V', d')" and "t \<in> terminal_states m"
  shows "V' t = V t"
proof -
  have "fst (V', d') t = V t"
  proof (rule foldE_invariant[where I = "\<lambda>c. fst c t = V t" and f = "pe_update m policy"
        and xs = "states m" and c = "(V, 0)"])
    show "foldE (pe_update m policy) (states m) (V, 0) = Inr (V', d')"
      using assms(1) by (simp add: pe_sweep_def)
    show "fst (V, 0::real) t = V t" by simp
    show "fst c' t = V t" if "fst c t = V t" "pe_update m policy x c = Inr c'" for x c c'
      using that pe_update_terminal_value[of m policy x "fst c" "snd c" "fst c'" "snd c'" t] assms(2)
      by simp
  qed
  then show ?thesis by simp
qed

lemma vi_sweep_terminal_value:
  assumes "vi_sweep m V = Inr (V', d')" and "t \<in> terminal_states m"
  shows "V' t = V t"
proof -
  have "fst (V', d') t = V t"
  proof (rule foldE_invariant[where I = "\<lambda>c. fst c t = V t" and f = "vi_update m"
        and xs = "states m" and c = "(V, 0)"])
    show "foldE (vi_update m) (states m) (V, 0) = Inr (V', d')"
      using assms(1) by (simp add: vi_sweep_def)
    show "fst (V, 0::real) t = V t" by simp
    show "fst c' t = V t" if "fst c t = V t" "vi_update m x c = Inr c'" for x c c'
      using that vi_update_terminal_value[of m x "fst c" "snd c" "fst c'" "snd c'" t] assms(2)
      by simp
  qed
  then show ?thesis by simp
qed

lemma pe_loop_invariant:
  "pe_loop m policy theta V = Some r \<Longrightarrow>
     (\<forall>V V' d. I V \<longrightarrow> pe_sweep m policy V = Inr (V', d) \<longrightarrow> I V') \<longrightarrow> I V \<longrightarrow>
     (\<forall>V'. r = Inr V' \<longrightarrow> I V')"
proof (erule pe_loop.raw_induct[rotated], goal_cases)
  case (1 loop m policy theta V r)
  show ?case
  proof (intro impI allI)
    fix V'
    assume pres: "\<forall>V V' d. I V \<longrightarrow> pe_sweep m policy V = Inr (V', d) \<longrightarrow> I V'"
      and V: "I V" and r: "r = Inr V'"
    from 1(2) r obtain V1 d where sw: "pe_sweep m policy V = Inr (V1, d)"
      by (cases "pe_sweep m policy V") auto
    with pres V have V1: "I V1" by blast
    show "I V'"
    proof (cases "d < theta")
      case True
      with 1(2) sw r V1 show ?thesis by simp
    next
      case False
      with 1(2) sw have "loop m policy theta V1 = Some r" by simp
      from 1(1)[OF this] pres V1 r show ?thesis by blast
    qed
  qed
qed

lemma vi_loop_invariant:
  "vi_loop m theta V = Some r \<Longrightarrow>
     (\<forall>V V' d. I V \<longrightarrow> vi_sweep m V = Inr (V', d) \<longrightarrow> I V') \<longrightarrow> I V \<longrightarrow>
     (\<forall>V'. r = Inr V' \<longrightarrow> I V')"
proof (erule vi_loop.raw_induct[rotated], goal_cases)
  case (1 loop m theta V r)
  show ?case
  proof (intro impI allI)
    fix V'
    assume pres: "\<forall>V V' d. I V \<longrightarrow> vi_sweep m V = Inr (V', d) \<longrightarrow> I V'"
      and V: "I V" and r: "r = Inr V'"
    from 1(2) r obtain V1 d where sw: "vi_sweep m V = Inr (V1, d)"
      by (cases "vi_sweep m V") auto
    with pres V have V1: "I V1" by blast
    show "I V'"
    proof (cases "d < theta")
      case True
      with 1(2) sw r V1 show ?thesis by simp
    next
      case False
      with 1(2) sw have "loop m theta V1 = Some r" by simp
      from 1(1)[OF this] pres V1 r show ?thesis by blast
    qed
  qed
qed

lemma pe_loop_invariant_rule:
  assumes "pe_loop m policy theta V = Some (Inr V')" and "I V"
    and "\<And>W W' d. I W \<Longrightarrow> pe_sweep m policy W = Inr (W', d) \<Longrightarrow> I W'"
  shows "I V'"
  using pe_loop_invariant[OF assms(1), of I] assms(2,3) by blast

lemma vi_loop_invariant_rule:
  assumes "vi_loop m theta V = Some (Inr V')" and "I V"
    and "\<And>W W' d. I W \<Longrightarrow> vi_sweep m W = Inr (W', d) \<Longrightarrow> I W'"
  shows "I V'"
  using vi_loop_invariant[OF assms(1), of I] assms(2,3) by blast

lemma policy_evaluation_terminal:
  assumes "policy_evaluation m policy theta = Some (Inr V)"
    and "s \<in> set (states m)" and "s \<in> terminal_states m"
  shows "V s = Some 0"
proof (rule pe_loop_invariant_rule[where I = "\<lambda>V. V s = Some 0"])
  show "pe_loop m policy theta (zero_values m) = Some (Inr V)"
    using assms(1) by (simp add: policy_evaluation_def)
  show "zero_values m s = Some 0" using assms(2) by (simp add: zero_values_apply)
  show "W' s = Some 0" if "W s = Some 0" "pe_sweep m policy W = Inr (W', d)" for W W' d
    using that pe_sweep_terminal_value[of m policy W W' d s] assms(3) by simp
qed

lemma vi_loop_terminal:
  assumes "vi_loop m theta (zero_values m) = Some (Inr V)"
    and "s \<in> set (states m)" and "s \<in> terminal_states m"
  shows "V s = Some 0"
proof (rule vi_loop_invariant_rule[where I = "\<lambda>V. V s = Some 0"])
  show "vi_loop m theta (zero_values m) = Some (Inr V)" by (rule assms(1))
  show "zero_values m s = Some 0" using assms(2) by (simp add: zero_values_apply)
  show "W' s = Some 0" if "W s = Some 0" "vi_sweep m W = Inr (W', d)" for W W' d
    using that vi_sweep_terminal_value[of m W W' d s] assms(3) by simp
qed

lemma vi_policy_terminal:
  assumes "vi_policy m V = Inr policy" and "s \<in> set (states m)" and "s \<in> terminal_states m"
  shows "policy s = Some None"
proof (rule foldE_key_written[where f = "vi_policy_update m V" and xs = "states m"
        and c = Map.empty and t = s])
  show "foldE (vi_policy_update m V) (states m) Map.empty = Inr policy"
    using assms(1) by (simp add: vi_policy_def)
  show "s \<in> set (states m) \<or> Map.empty s = Some None" using assms(2) by simp
  show "d' s = d s" if "vi_policy_update m V x d = Inr d'" "x \<noteq> s" for x d d'
    using that by (auto simp: vi_policy_update_def bindE_Inr_iff split: if_splits)
  show "d' s = Some None" if "vi_policy_update m V s d = Inr d'" for d d'
    using that assms(3) by (auto simp: vi_policy_update_def)
qed

lemma q_policy_terminal:
  assumes "q_policy m Q = Inr policy" and "s \<in> set (states m)" and "s \<in> terminal_states m"
  shows "policy s = Some None"
proof (rule foldE_key_written[where f = "q_policy_update m Q" and xs = "states m"
        and c = Map.empty and t = s])
  show "foldE (q_policy_update m Q) (states m) Map.empty = Inr policy"
    using assms(1) by (simp add: q_policy_def)
  show "s \<in> set (states m) \<or> Map.empty s = Some None" using assms(2) by simp
  show "d' s = d s" if "q_policy_update m Q x d = Inr d'" "x \<noteq> s" for x d d'
    using that by (auto simp: q_policy_update_def bindE_Inr_iff split: if_splits)
  show "d' s = Some None" if "q_policy_update m Q s d = Inr d'" for d d'
    using that assms(3) by (auto simp: q_policy_update_def)
qed

lemma pi_init_terminal:
  "pi_init m g = Inr (policy, g') \<Longrightarrow> s \<in> terminal_states m \<Longrightarrow> policy s = Some None"
  by (auto simp: pi_init_def bindE_Inr_iff)

lemma pi_improve_update_terminal:
  "pi_improve_update m V x (policy, st) = Inr (policy', st') \<Longrightarrow> s \<in> terminal_states m
     \<Longrightarrow> policy' s = policy s"
  by (auto simp: pi_improve_update_def bindE_Inr_iff split: if_splits)

lemma pi_improve_terminal:
  assumes "pi_improve m V policy = Inr (policy', st)" and "s \<in> terminal_states m"
  shows "policy' s = policy s"
proof -
  have "fst (policy', st) s = policy s"
  proof (rule foldE_invariant[where I = "\<lambda>c. fst c s = policy s" and f = "pi_improve_update m V"
        and xs = "states m" and c = "(policy, True)"])
    show "foldE (pi_improve_update m V) (states m) (policy, True) = Inr (policy', st)"
      using assms(1) by (simp add: pi_improve_def)
    show "fst (policy, True) s = policy s" by simp
    show "fst c' s = policy s" if "fst c s = policy s" "pi_improve_update m V x c = Inr c'" for x c c'
      using that pi_improve_update_terminal[of m V x "fst c" "snd c" "fst c'" "snd c'" s] assms(2)
      by simp
  qed
  then show ?thesis by simp
qed

lemma pi_improve_stable_aux:
  "foldE (pi_improve_update m V) xs (policy, st) = Inr (policy', True) \<Longrightarrow> st \<and> policy' = policy"
proof (induction xs arbitrary: policy st)
  case Nil
  then show ?case by simp
next
  case (Cons x xs)
  from Cons.prems obtain p1 st1 where
    u: "pi_improve_update m V x (policy, st) = Inr (p1, st1)" and
    rest: "foldE (pi_improve_update m V) xs (p1, st1) = Inr (policy', True)"
    by (auto simp: bindE_Inr_iff)
  from Cons.IH[OF rest] have st1: "st1" and p': "policy' = p1" by simp_all
  from u st1 have "st \<and> p1 = policy"
    by (auto simp: pi_improve_update_def bindE_Inr_iff getitem_Inr_iff split: if_splits)
  with p' show ?case by simp
qed

lemma pi_improve_stable:
  "pi_improve m V policy = Inr (policy', True) \<Longrightarrow> policy' = policy"
  using pi_improve_stable_aux[of m V "states m" policy True policy'] by (simp add: pi_improve_def)

lemma pi_loop_invariant:
  "pi_loop m theta policy = Some r \<Longrightarrow>
     (\<forall>p V p' st. I p \<longrightarrow> policy_evaluation m p theta = Some (Inr V) \<longrightarrow>
         pi_improve m V p = Inr (p', st) \<longrightarrow> I p') \<longrightarrow> I policy \<longrightarrow>
     (\<forall>V p'. r = Inr (V, p') \<longrightarrow>
         I p' \<and> policy_evaluation m p' theta = Some (Inr V) \<and> pi_improve m V p' = Inr (p', True))"
proof (erule pi_loop.raw_induct[rotated], goal_cases)
  case (1 loop m theta policy r)
  show ?case
  proof (intro impI allI)
    fix V p'
    assume pres: "\<forall>p V p' st. I p \<longrightarrow> policy_evaluation m p theta = Some (Inr V) \<longrightarrow>
         pi_improve m V p = Inr (p', st) \<longrightarrow> I p'"
      and pol: "I policy" and r: "r = Inr (V, p')"
    from 1(2) obtain ev where ev: "policy_evaluation m policy theta = Some ev"
      by (cases "policy_evaluation m policy theta") auto
    with 1(2) r obtain V1 where V1: "ev = Inr V1" by (cases ev) auto
    from 1(2) ev V1 r obtain p1 st where im: "pi_improve m V1 policy = Inr (p1, st)"
      by (cases "pi_improve m V1 policy") auto
    from pres pol ev V1 im have p1: "I p1" by blast
    show "I p' \<and> policy_evaluation m p' theta = Some (Inr V) \<and> pi_improve m V p' = Inr (p', True)"
    proof (cases st)
      case True
      with 1(2) ev V1 im r have eq: "V = V1" "p' = p1" by simp_all
      from im True have "p1 = policy" by (simp add: pi_improve_stable)
      with eq p1 ev V1 im True show ?thesis by simp
    next
      case False
      with 1(2) ev V1 im have "loop m theta p1 = Some r" by simp
      from 1(1)[OF this] pres p1 r show ?thesis by blast
    qed
  qed
qed

lemma pi_loop_result:
  assumes "pi_loop m theta policy = Some (Inr (V, p'))"
  shows "policy_evaluation m p' theta = Some (Inr V)" and "pi_improve m V p' = Inr (p', True)"
  using pi_loop_invariant[OF assms, of "\<lambda>_. True"] by simp_all

lemma pi_loop_invariant_rule:
  assumes "pi_loop m theta policy = Some (Inr (V, p'))" and "I policy"
    and "\<And>p W q st. I p \<Longrightarrow> policy_evaluation m p theta = Some (Inr W) \<Longrightarrow>
           pi_improve m W p = Inr (q, st) \<Longrightarrow> I q"
  shows "I p'"
  using pi_loop_invariant[OF assms(1), of I] assms(2,3) by blast

lemma policy_iteration_terminal:
  assumes "policy_iteration m theta g = Some (Inr (V, policy))"
    and "s \<in> set (states m)" and "s \<in> terminal_states m"
  shows "V s = Some 0" and "policy s = Some None"
proof -
  from assms(1) obtain p0 g' where init: "pi_init m g = Inr (p0, g')"
    and loop: "pi_loop m theta p0 = Some (Inr (V, policy))"
    by (auto simp: policy_iteration_def split: sum.splits)
  from pi_loop_result(1)[OF loop] assms(2,3) show "V s = Some 0"
    by (rule policy_evaluation_terminal)
  show "policy s = Some None"
  proof (rule pi_loop_invariant_rule[OF loop, where I = "\<lambda>p. p s = Some None"])
    show "p0 s = Some None" using init assms(3) by (rule pi_init_terminal)
    show "q s = Some None" if "p s = Some None" "pi_improve m W p = Inr (q, st)" for p W q st
      using that pi_improve_terminal[of m W p q st s] assms(3) by simp
  qed
qed

text \<open>
  Claim C2.  For a terminal state that is a state of the model, the value functions
  returned by \<^verbatim>\<open>policy_evaluation\<close>, \<^verbatim>\<open>value_iteration\<close> and \<^verbatim>\<open>policy_iteration\<close> hold 0, and
  the policies returned by \<^verbatim>\<open>value_iteration\<close>, \<^verbatim>\<open>policy_iteration\<close> and \<^verbatim>\<open>q_learning\<close> hold
  \<^verbatim>\<open>None\<close>.
\<close>

theorem terminal_states_zero_none:
  assumes "s \<in> set (states m)" and "s \<in> terminal_states m"
  shows "(policy_evaluation m policy0 theta = Some (Inr V0) \<longrightarrow> V0 s = Some 0)
   \<and> (value_iteration m theta = Some (Inr (V1, policy1)) \<longrightarrow> V1 s = Some 0 \<and> policy1 s = Some None)
   \<and> (policy_iteration m theta g = Some (Inr (V2, policy2)) \<longrightarrow> V2 s = Some 0 \<and> policy2 s = Some None)
   \<and> (q_learning m episodes alpha epsilon g' = Some (Inr (Q, policy3)) \<longrightarrow> policy3 s = Some None)"
proof (intro conjI impI)
  show "V0 s = Some 0" if "policy_evaluation m policy0 theta = Some (Inr V0)"
    using that assms by (rule policy_evaluation_terminal)
  show "V2 s = Some 0" "policy2 s = Some None"
    if "policy_iteration m theta g = Some (Inr (V2, policy2))"
    using policy_iteration_terminal[OF that assms] by simp_all
  show "policy3 s = Some None" if "q_learning m episodes alpha epsilon g' = Some (Inr (Q, policy3))"
  proof -
    from that have "q_policy m Q = Inr policy3"
      by (auto simp: q_learning_def bindE_Inr_iff split: option.splits sum.splits)
    then show ?thesis using assms by (rule q_policy_terminal)
  qed
  assume vi: "value_iteration m theta = Some (Inr (V1, policy1))"
  then have l: "vi_loop m theta (zero_values m) = Some (Inr V1)" and p: "vi_policy m V1 = Inr policy1"
    by (auto simp: value_iteration_def bindE_Inr_iff split: option.splits sum.splits)
  from l assms show "V1 s = Some 0" by (rule vi_loop_terminal)
  from p assms show "policy1 s = Some None" by (rule vi_policy_terminal)
qed

lemma main_mdp_tables:
  "P main_mdp = [''s0'' \<mapsto> [''a0'' \<mapsto> [(8/10, ''s0''), (2/10, ''s1'')], ''a1'' \<mapsto> [(5/10, ''s1''), (5/10, ''s2'')]],
      ''s1'' \<mapsto> [''a0'' \<mapsto> [(1, ''s0'')], ''a1'' \<mapsto> [(1, ''s2'')]],
      ''s2'' \<mapsto> [''a0'' \<mapsto> [(1, ''s2'')], ''a1'' \<mapsto> [(1, ''s2'')]]]"
  "R main_mdp = [''s0'' \<mapsto> [''a0'' \<mapsto> 0, ''a1'' \<mapsto> 1],
      ''s1'' \<mapsto> [''a0'' \<mapsto> 0, ''a1'' \<mapsto> 2],
      ''s2'' \<mapsto> [''a0'' \<mapsto> 0, ''a1'' \<mapsto> 0]]"
  by (simp_all add: main_mdp_def MDP_init_def)

lemmas main_eval = main_mdp_fields main_mdp_tables lookahead_def getitem_def py_sum_def py_max_def
  py_max_key_def py_max_pairs_def

lemma vi_sweep_main_1:
  "vi_sweep main_mdp (zero_values main_mdp) = Inr ([''s0'' \<mapsto> 1, ''s1'' \<mapsto> 2, ''s2'' \<mapsto> 0], 2)"
  apply (simp add: vi_sweep_def vi_update_def zero_values_def main_eval)
  apply (rule ext)
  apply simp
  done

lemma vi_sweep_main_2:
  "vi_sweep main_mdp [''s0'' \<mapsto> 1, ''s1'' \<mapsto> 2, ''s2'' \<mapsto> 0] = Inr (main_V, 9/10)"
  apply (simp add: vi_sweep_def vi_update_def main_V_def main_eval)
  apply (rule ext)
  apply simp
  done

lemma vi_sweep_main_3: "vi_sweep main_mdp main_V = Inr (main_V, 0)"
  apply (simp add: vi_sweep_def vi_update_def main_V_def main_eval)
  apply (rule ext)
  apply simp
  done

lemma vi_loop_main: "vi_loop main_mdp (1/1000000) (zero_values main_mdp) = Some (Inr main_V)"
  apply (subst vi_loop.simps, simp add: vi_sweep_main_1)
  apply (subst vi_loop.simps, simp add: vi_sweep_main_2)
  apply (subst vi_loop.simps, simp add: vi_sweep_main_3)
  done

lemma vi_policy_main: "vi_policy main_mdp main_V = Inr main_policy"
  by (simp add: vi_policy_def vi_policy_update_def main_V_def main_policy_def main_eval)

lemma value_iteration_main:
  "value_iteration main_mdp (1/1000000) = Some (Inr (main_V, main_policy))"
  by (simp add: value_iteration_def vi_loop_main vi_policy_main)

lemma pe_sweep_main_1:
  "pe_sweep main_mdp main_policy (zero_values main_mdp) =
     Inr ([''s0'' \<mapsto> 1, ''s1'' \<mapsto> 2, ''s2'' \<mapsto> 0], 2)"
  apply (simp add: pe_sweep_def pe_update_def zero_values_def main_policy_def main_eval)
  apply (rule ext)
  apply simp
  done

lemma pe_sweep_main_2:
  "pe_sweep main_mdp main_policy [''s0'' \<mapsto> 1, ''s1'' \<mapsto> 2, ''s2'' \<mapsto> 0] = Inr (main_V, 9/10)"
  apply (simp add: pe_sweep_def pe_update_def main_V_def main_policy_def main_eval)
  apply (rule ext)
  apply simp
  done

lemma pe_sweep_main_3: "pe_sweep main_mdp main_policy main_V = Inr (main_V, 0)"
  apply (simp add: pe_sweep_def pe_update_def main_V_def main_policy_def main_eval)
  apply (rule ext)
  apply simp
  done

lemma policy_evaluation_main:
  "policy_evaluation main_mdp main_policy (1/1000000) = Some (Inr main_V)"
  unfolding policy_evaluation_def
  apply (subst pe_loop.simps, simp add: pe_sweep_main_1)
  apply (subst pe_loop.simps, simp add: pe_sweep_main_2)
  apply (subst pe_loop.simps, simp add: pe_sweep_main_3)
  done

lemma pi_init_main: "pi_init main_mdp (\<lambda>n. 1/2) = Inr (main_policy, \<lambda>n. 1/2)"
  apply (simp add: pi_init_def pi_init_update_def choice_def random_def main_policy_def main_mdp_fields)
  apply (rule ext)
  apply simp
  done

lemma pi_improve_main: "pi_improve main_mdp main_V main_policy = Inr (main_policy, True)"
  apply (simp add: pi_improve_def pi_improve_update_def main_V_def main_policy_def main_eval)
  apply (rule ext)
  apply simp
  done

lemma policy_iteration_main:
  "policy_iteration main_mdp (1/1000000) (\<lambda>n. 1/2) = Some (Inr (main_V, main_policy))"
  unfolding policy_iteration_def
  apply (simp add: pi_init_main)
  apply (subst pi_loop.simps)
  apply (simp add: policy_evaluation_main pi_improve_main)
  done

theorem terminal_states_zero_none_witness:
  "''s2'' \<in> set (states main_mdp) \<and> ''s2'' \<in> terminal_states main_mdp
   \<and> policy_evaluation main_mdp main_policy (1/1000000) = Some (Inr main_V)
   \<and> value_iteration main_mdp (1/1000000) = Some (Inr (main_V, main_policy))
   \<and> policy_iteration main_mdp (1/1000000) (\<lambda>n. 1/2) = Some (Inr (main_V, main_policy))
   \<and> q_learning main_mdp 1 (1/10) 1 tape =
       Some (Inr ((zero_Q main_mdp)(''s0'' \<mapsto> [(''a0'', 0), (''a1'', 1/10)]),
                  [''s0'' \<mapsto> Some ''a1'', ''s1'' \<mapsto> Some ''a0'', ''s2'' \<mapsto> None]))
   \<and> main_V ''s2'' = Some 0 \<and> main_policy ''s2'' = Some None
   \<and> [''s0'' \<mapsto> Some ''a1'', ''s1'' \<mapsto> Some ''a0'', ''s2'' \<mapsto> None] ''s2'' = Some None"
proof -
  have a: "''s2'' \<in> set (states main_mdp)" and b: "''s2'' \<in> terminal_states main_mdp"
    by (simp_all add: main_mdp_fields)
  note inst = terminal_states_zero_none[OF a b, of main_policy "1/1000000" main_V main_V main_policy
      "\<lambda>n. 1/2" main_V main_policy 1 "1/10" 1 tape
      "(zero_Q main_mdp)(''s0'' \<mapsto> [(''a0'', 0), (''a1'', 1/10)])"
      "[''s0'' \<mapsto> Some ''a1'', ''s1'' \<mapsto> Some ''a0'', ''s2'' \<mapsto> None]"]
  from inst policy_iteration_main have "main_V ''s2'' = Some 0 \<and> main_policy ''s2'' = Some None"
    by blast
  moreover from inst q_learning_main
  have "[''s0'' \<mapsto> Some ''a1'', ''s1'' \<mapsto> Some ''a0'', ''s2'' \<mapsto> None] ''s2'' = Some None"
    by blast
  ultimately show ?thesis
    using a b policy_evaluation_main value_iteration_main policy_iteration_main q_learning_main
    by simp
qed

section \<open>The lookahead expectation and the greedy action\<close>






















section \<open>Construction of a model\<close>

lemma mapE_KeyError:
  assumes "x \<in> set xs" and "f x = Inl e0"
    and "\<And>y e. y \<in> set xs \<Longrightarrow> f y = Inl e \<Longrightarrow> e = KeyError"
  shows "mapE f xs = Inl KeyError"
  using assms
proof (induction xs)
  case Nil
  then show ?case by simp
next
  case (Cons y ys)
  show ?case
  proof (cases "f y")
    case (Inl e)
    with Cons.prems(3)[of y e] show ?thesis by simp
  next
    case (Inr v)
    with Cons.prems(1,2) have "x \<in> set ys" by auto
    then have "mapE f ys = Inl KeyError"
      by (rule Cons.IH) (use Cons.prems in auto)
    with Inr show ?thesis by simp
  qed
qed

lemma lookahead_unknown_state:
  assumes "P m s = Some Ps" and "Ps a = Some ts" and "(p, s') \<in> set ts" and "V s' = None"
  shows "lookahead m V s a = Inl KeyError"
proof -
  let ?f = "\<lambda>(prob, next_state).
              bindE (getitem (R m) s) (\<lambda>Rs. bindE (getitem Rs a) (\<lambda>r.
              bindE (getitem V next_state) (\<lambda>v. Inr (prob * (r + gamma m * v)))))"
  have err: "e = KeyError" if "?f y = Inl e" for y e
    using that by (cases y) (auto simp: bindE_def getitem_def split: option.splits sum.splits)
  have "\<exists>e0. ?f (p, s') = Inl e0"
    using assms(4) by (auto simp: bindE_def getitem_def split: option.splits sum.splits)
  then obtain e0 where "?f (p, s') = Inl e0" ..
  with assms(3) have "mapE ?f ts = Inl KeyError"
    by (rule mapE_KeyError) (use err in blast)
  then show ?thesis by (simp add: lookahead_def assms(1,2))
qed

text \<open>
  Claim C1, as amended.  Constructing a model never fails and checks nothing: the
  arguments are stored as they are given (a missing terminal set becomes the empty set).
  A transition to a state that the value function does not know is met only when a sweep
  reads that state's value, where the lookahead raises \<^verbatim>\<open>KeyError\<close>.
\<close>

theorem construction_stores_arguments:
  "states (MDP_init S A tp rw g T) = S \<and> actions (MDP_init S A tp rw g T) = A
   \<and> P (MDP_init S A tp rw g T) = tp \<and> R (MDP_init S A tp rw g T) = rw
   \<and> gamma (MDP_init S A tp rw g T) = g
   \<and> terminal_states (MDP_init S A tp rw g T) = (case T of None \<Rightarrow> {} | Some U \<Rightarrow> U)
   \<and> (tp s = Some Ps \<and> Ps a = Some ts \<and> (p, s') \<in> set ts \<and> V s' = None \<longrightarrow>
        lookahead (MDP_init S A tp rw g T) V s a = Inl KeyError)"
  using lookahead_unknown_state[of "MDP_init S A tp rw g T" s Ps a ts p s' V]
  by (simp add: MDP_init_def)

lemma leaky_mdp_fields:
  "states leaky_mdp = [''s0'', ''s1'']" "actions leaky_mdp = [''a0'']"
  "gamma leaky_mdp = 9/10" "terminal_states leaky_mdp = {''s1''}"
  "P leaky_mdp = [''s0'' \<mapsto> [''a0'' \<mapsto> [(9/10, ''s1'')]], ''s1'' \<mapsto> [''a0'' \<mapsto> [(1, ''s1'')]]]"
  "R leaky_mdp = [''s0'' \<mapsto> [''a0'' \<mapsto> 1], ''s1'' \<mapsto> [''a0'' \<mapsto> 0]]"
  by (simp_all add: leaky_mdp_def MDP_init_def)

lemma dangling_mdp_fields:
  "states dangling_mdp = [''s0'', ''s1'']" "actions dangling_mdp = [''a0'']"
  "gamma dangling_mdp = 9/10" "terminal_states dangling_mdp = {''s1''}"
  "P dangling_mdp = [''s0'' \<mapsto> [''a0'' \<mapsto> [(1, ''s9'')]], ''s1'' \<mapsto> [''a0'' \<mapsto> [(1, ''s1'')]]]"
  "R dangling_mdp = [''s0'' \<mapsto> [''a0'' \<mapsto> 1], ''s1'' \<mapsto> [''a0'' \<mapsto> 0]]"
  by (simp_all add: dangling_mdp_def MDP_init_def)

lemmas eval_defs = lookahead_def getitem_def py_sum_def py_max_def py_max_key_def py_max_pairs_def

lemma value_iteration_leaky:
  "value_iteration leaky_mdp (1/1000000) =
     Some (Inr ([''s0'' \<mapsto> 9/10, ''s1'' \<mapsto> 0], [''s0'' \<mapsto> Some ''a0'', ''s1'' \<mapsto> None]))"
proof -
  have s1: "vi_sweep leaky_mdp (zero_values leaky_mdp) = Inr ([''s0'' \<mapsto> 9/10, ''s1'' \<mapsto> 0], 9/10)"
    apply (simp add: vi_sweep_def vi_update_def zero_values_def leaky_mdp_fields eval_defs)
    apply (rule ext)
    apply simp
    done
  have s2: "vi_sweep leaky_mdp [''s0'' \<mapsto> 9/10, ''s1'' \<mapsto> 0] = Inr ([''s0'' \<mapsto> 9/10, ''s1'' \<mapsto> 0], 0)"
    apply (simp add: vi_sweep_def vi_update_def leaky_mdp_fields eval_defs)
    apply (rule ext)
    apply simp
    done
  have "vi_loop leaky_mdp (1/1000000) (zero_values leaky_mdp) = Some (Inr [''s0'' \<mapsto> 9/10, ''s1'' \<mapsto> 0])"
    apply (subst vi_loop.simps, simp add: s1)
    apply (subst vi_loop.simps, simp add: s2)
    done
  moreover have "vi_policy leaky_mdp [''s0'' \<mapsto> 9/10, ''s1'' \<mapsto> 0] = Inr [''s0'' \<mapsto> Some ''a0'', ''s1'' \<mapsto> None]"
    by (simp add: vi_policy_def vi_policy_update_def leaky_mdp_fields eval_defs)
  ultimately show ?thesis by (simp add: value_iteration_def)
qed

lemma value_iteration_dangling: "value_iteration dangling_mdp (1/1000000) = Some (Inl KeyError)"
proof -
  have "vi_sweep dangling_mdp (zero_values dangling_mdp) = Inl KeyError"
    by (simp add: vi_sweep_def vi_update_def zero_values_def dangling_mdp_fields eval_defs)
  then have "vi_loop dangling_mdp (1/1000000) (zero_values dangling_mdp) = Some (Inl KeyError)"
    by (subst vi_loop.simps) simp
  then show ?thesis by (simp add: value_iteration_def)
qed

text \<open>
  Claim C1 as stated fails.  A model whose probabilities sum to 0.9 is constructed and
  \<^verbatim>\<open>value_iteration\<close> returns values and a policy for it; a model that names an unknown
  state is constructed too, and the defect shows in the first sweep.
\<close>

theorem construction_validation_counterexample:
  "leaky_mdp = MDP_init [''s0'', ''s1''] [''a0'']
     [''s0'' \<mapsto> [''a0'' \<mapsto> [(9/10, ''s1'')]], ''s1'' \<mapsto> [''a0'' \<mapsto> [(1, ''s1'')]]]
     [''s0'' \<mapsto> [''a0'' \<mapsto> 1], ''s1'' \<mapsto> [''a0'' \<mapsto> 0]] (9/10) (Some {''s1''})
   \<and> sum_list (map fst (transitions_of leaky_mdp ''s0'' ''a0'')) = 9/10
   \<and> \<not> valid_model leaky_mdp
   \<and> value_iteration leaky_mdp (1/1000000) =
       Some (Inr ([''s0'' \<mapsto> 9/10, ''s1'' \<mapsto> 0], [''s0'' \<mapsto> Some ''a0'', ''s1'' \<mapsto> None]))
   \<and> \<not> valid_model dangling_mdp
   \<and> value_iteration dangling_mdp (1/1000000) = Some (Inl KeyError)"
proof -
  have "sum_list (map fst (transitions_of leaky_mdp ''s0'' ''a0'')) = 9/10"
    by (simp add: transitions_of_def leaky_mdp_fields)
  moreover have "\<not> valid_model leaky_mdp"
    by (simp add: valid_model_def leaky_mdp_fields)
  moreover have "\<not> valid_model dangling_mdp"
    by (simp add: valid_model_def dangling_mdp_fields)
  ultimately show ?thesis
    using value_iteration_leaky value_iteration_dangling by (simp add: leaky_mdp_def)
qed

theorem construction_stores_arguments_witness:
  "P dangling_mdp ''s0'' = Some [''a0'' \<mapsto> [(1, ''s9'')]]
   \<and> [''a0'' \<mapsto> [(1::real, ''s9'')]] ''a0'' = Some [(1, ''s9'')]
   \<and> zero_values dangling_mdp ''s9'' = None
   \<and> lookahead dangling_mdp (zero_values dangling_mdp) ''s0'' ''a0'' = Inl KeyError"
proof -
  have a: "P dangling_mdp ''s0'' = Some [''a0'' \<mapsto> [(1, ''s9'')]]"
    by (simp add: dangling_mdp_fields)
  have b: "zero_values dangling_mdp ''s9'' = None"
    by (simp add: zero_values_def dangling_mdp_fields)
  from construction_stores_arguments[of "[''s0'', ''s1'']" "[''a0'']"
      "[''s0'' \<mapsto> [''a0'' \<mapsto> [(1, ''s9'')]], ''s1'' \<mapsto> [''a0'' \<mapsto> [(1, ''s1'')]]]"
      "[''s0'' \<mapsto> [''a0'' \<mapsto> 1], ''s1'' \<mapsto> [''a0'' \<mapsto> 0]]" "9/10" "Some {''s1''}"
      "''s0''" "[''a0'' \<mapsto> [(1, ''s9'')]]" "''a0''" "[(1, ''s9'')]" 1 "''s9''"
      "zero_values dangling_mdp"] b
  have "lookahead dangling_mdp (zero_values dangling_mdp) ''s0'' ''a0'' = Inl KeyError"
    by (simp add: dangling_mdp_def)
  with a b show ?thesis by simp
qed

section \<open>Sweeps of value iteration\<close>



lemma value_of_Some: "V s = Some v \<Longrightarrow> value_of V s = v"
  by (simp add: value_of_def)














section \<open>Rounds of policy iteration\<close>

















section \<open>Values of successive rounds of policy iteration\<close>



















end
